theory Spec2Isabelle
  imports Main "HOL-Library.Word"
begin

section \<open>The stream Writer of wandb core\<close>

text \<open>
  A shallow embedding of \<^verbatim>\<open>core/internal/server/stream/writer.go\<close>: the Writer takes
  records from the handler, forwards them to the sender over \<^verbatim>\<open>fwdChan\<close> and queues
  them for the append-only log over \<^verbatim>\<open>storeChan\<close>, where a goroutine started by
  \<^verbatim>\<open>startStore\<close> marshals and writes them.

  The Go code works on pointers: a \<^verbatim>\<open>*pb.Record\<close> is an address into a heap of
  records, and \<^verbatim>\<open>storeRecord\<close> writes the sequence number through that address after
  \<^verbatim>\<open>sendRecord\<close> has already put the same address on the forward channel. The
  embedding keeps this: channels carry addresses, the heap maps addresses to records.
\<close>

subsection \<open>Protocol buffer messages\<close>

type_synonym int64 = "64 word"
type_synonym ref = nat
type_synonym bytes = "nat list"

text \<open>\<^verbatim>\<open>pb.Control\<close>: only the two flags the Writer reads.\<close>

record pb_Control =
  Local :: bool
  AlwaysSend :: bool

text \<open>
  The \<^verbatim>\<open>record_type\<close> oneof of \<^verbatim>\<open>pb.Record\<close>. The Writer tells the request variant
  from every other one; a few of the others are listed by name.
\<close>

datatype isRecord_RecordType =
    Record_History
  | Record_Summary
  | Record_Config
  | Record_Run
  | Record_Exit
  | Record_Request

text \<open>
  \<^verbatim>\<open>pb.Record\<close>. An unset oneof is the nil interface (\<open>None\<close>); an absent control
  message is a nil pointer (\<open>None\<close>).
\<close>

record pb_Record =
  Num :: int64
  RecordType :: "isRecord_RecordType option"
  Control :: "pb_Control option"

text \<open>The generated getters are nil-safe: on a nil receiver they return the zero value.\<close>

definition GetControl :: "pb_Record \<Rightarrow> pb_Control option" where
  "GetControl r = Control r"

definition GetLocal :: "pb_Control option \<Rightarrow> bool" where
  "GetLocal c = (case c of None \<Rightarrow> False | Some x \<Rightarrow> Local x)"

definition GetAlwaysSend :: "pb_Control option \<Rightarrow> bool" where
  "GetAlwaysSend c = (case c of None \<Rightarrow> False | Some x \<Rightarrow> AlwaysSend x)"

text \<open>
  \<^verbatim>\<open>pb.Settings\<close>: the fields the Writer reads. They are wrapper messages
  (\<^verbatim>\<open>*wrapperspb.BoolValue\<close>, \<^verbatim>\<open>*wrapperspb.StringValue\<close>), nil when unset.
\<close>

record pb_Settings =
  XSync :: "bool option"
  XOffline :: "bool option"
  SyncFile :: "string option"
  RunId :: "string option"

definition GetXSync :: "pb_Settings \<Rightarrow> bool option" where
  "GetXSync s = XSync s"

definition GetXOffline :: "pb_Settings \<Rightarrow> bool option" where
  "GetXOffline s = XOffline s"

definition GetSyncFile :: "pb_Settings \<Rightarrow> string option" where
  "GetSyncFile s = SyncFile s"

definition GetValue :: "bool option \<Rightarrow> bool" where
  "GetValue b = (case b of None \<Rightarrow> False | Some v \<Rightarrow> v)"

definition GetStringValue :: "string option \<Rightarrow> string" where
  "GetStringValue b = (case b of None \<Rightarrow> [] | Some v \<Rightarrow> v)"

subsection \<open>Channels\<close>

text \<open>
  A channel as its single producer sees it: the values sent so far, in order, and whether
  it has been closed. Closing keeps what was sent: a receiver still gets every value
  sent before the close. A nil channel is \<open>None\<close>.

  Sending on a nil channel blocks forever, sending on a closed channel panics, closing a
  nil or a closed channel panics (\<open>chan_close\<close> is \<open>None\<close> then). A send on a full buffer
  waits for the receiver; the receivers here (the sender, the store goroutine) are taken
  to keep receiving, so that wait ends and is not modelled.
\<close>

record chan =
  sent :: "ref list"
  is_closed :: bool

definition make_chan :: chan where
  "make_chan = \<lparr>sent = [], is_closed = False\<rparr>"

datatype send_result = Sent chan | SendBlocks | SendPanics

definition chan_send :: "chan option \<Rightarrow> ref \<Rightarrow> send_result" where
  "chan_send ch v =
     (case ch of
        None \<Rightarrow> SendBlocks
      | Some c \<Rightarrow> if is_closed c then SendPanics else Sent (c\<lparr>sent := sent c @ [v]\<rparr>))"

definition chan_close :: "chan option \<Rightarrow> chan option" where
  "chan_close ch =
     (case ch of
        None \<Rightarrow> None
      | Some c \<Rightarrow> if is_closed c then None else Some (c\<lparr>is_closed := True\<rparr>))"

subsection \<open>What the Writer does to the outside, in program order\<close>

datatype level = LDebug | LInfo | LError | LCaptureError | LCaptureFatal

datatype chan_name = FwdChan | StoreChan

datatype event =
    Log level string
  | Send chan_name ref
  | CloseChan chan_name
  | StoreOpen bool
  | StoreWrite bytes bool
  | StoreClose bool

subsection \<open>The store and its environment\<close>

text \<open>
  Modelled from the spec: package \<^verbatim>\<open>store\<close> (\<^verbatim>\<open>store.New\<close>, \<^verbatim>\<open>Open\<close>, \<^verbatim>\<open>Write\<close>,
  \<^verbatim>\<open>Close\<close>) is not among the sources. The spec gives it as a sequential append-only
  file: \<^verbatim>\<open>Open\<close> acquires the file and writes the header or fails, \<^verbatim>\<open>Write\<close> appends
  one frame in call order or returns an error, \<^verbatim>\<open>Close\<close> releases the file.
  Whether an operation fails is up to the file system, given here by \<open>env\<close>; a failed
  write appends nothing.
\<close>

record Store =
  name :: string
  is_open :: bool
  header_written :: bool
  frames :: "bytes list"
  close_calls :: nat

text \<open>
  The environment: \<^verbatim>\<open>proto.Marshal\<close> (\<open>None\<close> is its error) and the outcome of the
  file operations.
\<close>

record env =
  marshal :: "pb_Record \<Rightarrow> bytes option"
  open_ok :: "string \<Rightarrow> bool"
  write_ok :: "bytes list \<Rightarrow> bytes \<Rightarrow> bool"
  close_ok :: "bytes list \<Rightarrow> bool"

definition store_New :: "string \<Rightarrow> Store" where
  "store_New n =
     \<lparr>name = n, is_open = False, header_written = False, frames = [], close_calls = 0\<rparr>"

definition store_Open :: "env \<Rightarrow> Store \<Rightarrow> Store option" where
  "store_Open E st =
     (if open_ok E (name st) then Some (st\<lparr>is_open := True, header_written := True\<rparr>)
      else None)"

definition store_Write :: "env \<Rightarrow> Store \<Rightarrow> bytes \<Rightarrow> Store option" where
  "store_Write E st out =
     (if write_ok E (frames st) out then Some (st\<lparr>frames := frames st @ [out]\<rparr>)
      else None)"

definition store_Close :: "env \<Rightarrow> Store \<Rightarrow> bool \<times> Store" where
  "store_Close E st =
     (close_ok E (frames st), st\<lparr>is_open := False, close_calls := close_calls st + 1\<rparr>)"

subsection \<open>The Writer\<close>

text \<open>
  The fields of \<^verbatim>\<open>Writer\<close> that hold state (\<^verbatim>\<open>ctx\<close> is only passed on; the logger's
  calls go to the trace). \<^verbatim>\<open>wg\<close> is the wait group's counter. The Writer is built by
  \<^verbatim>\<open>NewWriter\<close> with \<^verbatim>\<open>WithWriterSettings\<close>: \<^verbatim>\<open>Do\<close> reads \<^verbatim>\<open>w.settings.RunId\<close> in its
  first statement, so the settings are taken to be there.
\<close>

record Writer =
  settings :: pb_Settings
  fwdChan :: "chan option"
  storeChan :: "chan option"
  store :: "Store option"
  recordNum :: int64
  wg :: nat

text \<open>The Writer together with the memory its records live in and the trace of its effects.\<close>

record state = Writer +
  heap :: "ref \<Rightarrow> pb_Record"
  trace :: "event list"

text \<open>
  How a call ends: it returns (\<open>Ok\<close>), its goroutine blocks forever (\<open>Blocked\<close>), or it
  panics (\<open>Panic\<close>). Each carries the state reached.
\<close>

datatype outcome =
    is_Ok: Ok (state_of: state)
  | is_Blocked: Blocked (state_of: state)
  | is_Panic: Panic (state_of: state)

fun andThen :: "outcome \<Rightarrow> (state \<Rightarrow> outcome) \<Rightarrow> outcome" where
  "andThen (Ok s) f = f s"
| "andThen (Blocked s) f = Blocked s"
| "andThen (Panic s) f = Panic s"

text \<open>
  Modelled from the spec: the logger (\<^verbatim>\<open>observability.CoreLogger\<close>) is not among the
  sources. By the spec its calls only make errors visible: \<^verbatim>\<open>Debug\<close>, \<^verbatim>\<open>Info\<close>, \<^verbatim>\<open>Error\<close>
  and \<^verbatim>\<open>CaptureError\<close> add a line to the trace and return.
\<close>

definition logger :: "level \<Rightarrow> string \<Rightarrow> state \<Rightarrow> state" where
  "logger lvl msg w = w\<lparr>trace := trace w @ [Log lvl msg]\<rparr>"

text \<open>
  Modelled from the spec: \<^verbatim>\<open>CaptureFatalAndPanic\<close> of the same logger is not among the
  sources either; by its name and by the spec (a failure to open the store is fatal and
  aborts start-up) it records the error and panics.
\<close>

definition CaptureFatalAndPanic :: "string \<Rightarrow> state \<Rightarrow> outcome" where
  "CaptureFatalAndPanic msg w = Panic (logger LCaptureFatal msg w)"

text \<open>Every other effect is added to the trace where it happens.\<close>

definition emit :: "event \<Rightarrow> state \<Rightarrow> state" where
  "emit e w = w\<lparr>trace := trace w @ [e]\<rparr>"

text \<open>\<^verbatim>\<open>sendRecord\<close>, writer.go lines 164 to 170.\<close>

definition sendRecord :: "state \<Rightarrow> ref \<Rightarrow> outcome" where
  "sendRecord w record =
     (if GetValue (GetXOffline (settings w)) \<and> \<not> GetAlwaysSend (GetControl (heap w record))
      then Ok w
      else (case chan_send (fwdChan w) record of
              Sent c \<Rightarrow> Ok (emit (Send FwdChan record) (w\<lparr>fwdChan := Some c\<rparr>))
            | SendBlocks \<Rightarrow> Blocked w
            | SendPanics \<Rightarrow> Panic w))"

text \<open>\<^verbatim>\<open>storeRecord\<close>, writer.go lines 155 to 162.\<close>

definition storeRecord :: "state \<Rightarrow> ref \<Rightarrow> outcome" where
  "storeRecord w record =
     (if GetLocal (GetControl (heap w record)) then Ok w
      else
        let w1 = w\<lparr>recordNum := recordNum w + 1\<rparr>;
            w2 = w1\<lparr>heap := (heap w1)(record := (heap w1 record)\<lparr>Num := recordNum w1\<rparr>)\<rparr>
        in (case chan_send (storeChan w2) record of
              Sent c \<Rightarrow> Ok (emit (Send StoreChan record) (w2\<lparr>storeChan := Some c\<rparr>))
            | SendBlocks \<Rightarrow> Blocked w2
            | SendPanics \<Rightarrow> Panic w2))"

text \<open>\<^verbatim>\<open>handleRecord\<close>, writer.go lines 141 to 152.\<close>

definition handleRecord :: "state \<Rightarrow> ref \<Rightarrow> outcome" where
  "handleRecord w record =
     (let w1 = logger LDebug ''write: got a message'' w
      in (case RecordType (heap w1 record) of
            Some Record_Request \<Rightarrow> sendRecord w1 record
          | None \<Rightarrow> Ok (logger LError ''nil record type'' w1)
          | Some _ \<Rightarrow> andThen (sendRecord w1 record) (\<lambda>w2. storeRecord w2 record)))"

text \<open>
  The loop of \<^verbatim>\<open>Do\<close>, writer.go lines 120 to 122. The inbound channel is given by the
  records the handler sends before it closes the channel, in order; every one is a
  pointer to a record of the heap.
\<close>

fun range_inChan :: "state \<Rightarrow> ref list \<Rightarrow> outcome" where
  "range_inChan w [] = Ok w"
| "range_inChan w (record # rest) =
     andThen (handleRecord w record) (\<lambda>w'. range_inChan w' rest)"

text \<open>
  \<^verbatim>\<open>startStore\<close> up to the start of its goroutine, writer.go lines 71 to 93. The
  goroutine started at the end is counted in \<open>wg\<close>; its steps are \<open>store_worker\<close> below.
\<close>

definition startStore :: "env \<Rightarrow> state \<Rightarrow> outcome" where
  "startStore E w =
     (if GetValue (GetXSync (settings w)) then Ok w
      else
        let w1 = w\<lparr>storeChan := Some make_chan\<rparr>;
            st = store_New (GetStringValue (GetSyncFile (settings w1)));
            w2 = w1\<lparr>store := Some st\<rparr>
        in (case store_Open E st of
              None \<Rightarrow>
                CaptureFatalAndPanic ''writer: error creating store''
                  (emit (StoreOpen False) w2)
            | Some st' \<Rightarrow> Ok ((emit (StoreOpen True) w2)\<lparr>store := Some st', wg := wg w2 + 1\<rparr>)))"

text \<open>
  The goroutine of \<^verbatim>\<open>startStore\<close>, writer.go lines 94 to 110. First its loop over the
  records received from \<^verbatim>\<open>storeChan\<close>: a record that does not marshal, or whose write
  fails, is logged and the loop goes on. (A write through a nil \<^verbatim>\<open>w.store\<close> would panic;
  the goroutine is only started once the store is there.) The goroutine reads each
  record through its pointer when it marshals it.
\<close>

fun store_loop :: "env \<Rightarrow> state \<Rightarrow> ref list \<Rightarrow> outcome" where
  "store_loop E w [] = Ok w"
| "store_loop E w (record # rest) =
     (case marshal E (heap w record) of
        None \<Rightarrow> store_loop E (logger LError ''writer: error marshalling record'' w) rest
      | Some out \<Rightarrow>
          (case store w of
             None \<Rightarrow> Panic w
           | Some st \<Rightarrow>
               (case store_Write E st out of
                  None \<Rightarrow>
                    store_loop E
                      (logger LError ''writer: error storing record''
                         (emit (StoreWrite out False) w)) rest
                | Some st' \<Rightarrow>
                    store_loop E (emit (StoreWrite out True) (w\<lparr>store := Some st'\<rparr>)) rest)))"

text \<open>
  The whole goroutine: it receives what was sent on \<^verbatim>\<open>storeChan\<close> until the channel is
  closed (on a channel that is never closed, or a nil one, it waits forever), then closes
  the store, capturing an error of the close, and calls \<^verbatim>\<open>wg.Done\<close> (which panics on a
  counter that is already zero).
\<close>

definition store_worker :: "env \<Rightarrow> state \<Rightarrow> outcome" where
  "store_worker E w =
     (case storeChan w of
        None \<Rightarrow> Blocked w
      | Some c \<Rightarrow>
          andThen (store_loop E w (sent c))
            (\<lambda>w1. if \<not> is_closed c then Blocked w1
                  else (case store w1 of
                          None \<Rightarrow> Panic w1
                        | Some st \<Rightarrow>
                            let r = store_Close E st;
                                w2 = emit (StoreClose (fst r)) (w1\<lparr>store := Some (snd r)\<rparr>);
                                w3 = (if fst r then w2
                                      else logger LCaptureError ''writer: error closing store'' w2)
                            in if wg w3 = 0 then Panic w3 else Ok (w3\<lparr>wg := wg w3 - 1\<rparr>))))"

text \<open>
  \<^verbatim>\<open>w.wg.Wait()\<close>. The goroutine runs beside the loop of \<^verbatim>\<open>Do\<close>; the two meet only at
  the channel, which hands the records over in the order they were sent, and at the wait
  group. The embedding lets the goroutine take its steps at the wait: what it receives
  and the order of its own steps are as in any other schedule, and the order of the
  Writer's own steps is the program's. (It marshals a record as the heap holds it then;
  with one pointer per inbound record that is the record as it was queued.)
\<close>

definition wg_Wait :: "env \<Rightarrow> state \<Rightarrow> outcome" where
  "wg_Wait E w =
     (if wg w = 0 then Ok w
      else andThen (store_worker E w) (\<lambda>w1. if wg w1 = 0 then Ok w1 else Blocked w1))"

text \<open>\<^verbatim>\<open>Close\<close>, writer.go lines 129 to 135.\<close>

definition Close :: "state \<Rightarrow> outcome" where
  "Close w =
     (case chan_close (fwdChan w) of
        None \<Rightarrow> Panic w
      | Some c \<Rightarrow>
          let w1 = emit (CloseChan FwdChan) (w\<lparr>fwdChan := Some c\<rparr>)
          in andThen
               (if storeChan w1 \<noteq> None
                then (case chan_close (storeChan w1) of
                        None \<Rightarrow> Panic w1
                      | Some c' \<Rightarrow> Ok (emit (CloseChan StoreChan) (w1\<lparr>storeChan := Some c'\<rparr>)))
                else Ok w1)
               (\<lambda>w2. Ok (logger LInfo ''writer: closed'' w2)))"

text \<open>
  \<^verbatim>\<open>Do\<close>, writer.go lines 114 to 125. The deferred \<^verbatim>\<open>Reraise\<close> passes a panic on, so a
  panic inside is the outcome of \<^verbatim>\<open>Do\<close>.
\<close>

definition Do :: "env \<Rightarrow> state \<Rightarrow> ref list \<Rightarrow> outcome" where
  "Do E w inChan =
     andThen (startStore E (logger LInfo ''writer: started'' w))
       (\<lambda>w1. andThen (range_inChan w1 inChan)
          (\<lambda>w2. andThen (Close w2) (\<lambda>w3. wg_Wait E w3)))"

text \<open>
  The Writer as \<^verbatim>\<open>NewWriter\<close> returns it when called with \<^verbatim>\<open>WithWriterSettings\<close> and
  \<^verbatim>\<open>WithWriterFwdChannel\<close>: no store channel, no store, record number 0, an idle wait
  group. The heap is the memory the inbound records point into.
\<close>

definition NewWriter :: "pb_Settings \<Rightarrow> chan \<Rightarrow> (ref \<Rightarrow> pb_Record) \<Rightarrow> state" where
  "NewWriter s fwd h =
     \<lparr>settings = s, fwdChan = Some fwd, storeChan = None, store = None, recordNum = 0,
      wg = 0, heap = h, trace = []\<rparr>"

subsection \<open>The vocabulary of the properties\<close>

text \<open>A data record: its variant is set and is not the request variant.\<close>

definition is_data :: "pb_Record \<Rightarrow> bool" where
  "is_data r = (RecordType r \<noteq> None \<and> RecordType r \<noteq> Some Record_Request)"

text \<open>The offline rule lets a record through: not offline, or marked always_send.\<close>

definition passes_offline :: "pb_Settings \<Rightarrow> pb_Record \<Rightarrow> bool" where
  "passes_offline s r = (\<not> GetValue (GetXOffline s) \<or> GetAlwaysSend (GetControl r))"

text \<open>The record is one the Writer puts on the forward channel.\<close>

definition forwarded :: "pb_Settings \<Rightarrow> pb_Record \<Rightarrow> bool" where
  "forwarded s r = (RecordType r \<noteq> None \<and> passes_offline s r)"

text \<open>The record is one the Writer numbers and queues for the store.\<close>

definition persisted :: "pb_Record \<Rightarrow> bool" where
  "persisted r = (is_data r \<and> \<not> GetLocal (GetControl r))"

text \<open>The events of handling one record, in order, when both channels take it.\<close>

definition events_of :: "pb_Settings \<Rightarrow> (ref \<Rightarrow> pb_Record) \<Rightarrow> ref \<Rightarrow> event list" where
  "events_of s h a =
     Log LDebug ''write: got a message'' #
     (if RecordType (h a) = None then [Log LError ''nil record type'']
      else (if passes_offline s (h a) then [Send FwdChan a] else []) @
           (if persisted (h a) then [Send StoreChan a] else []))"

text \<open>Both channels exist and are open: the Writer between \<^verbatim>\<open>startStore\<close> and \<^verbatim>\<open>Close\<close>.\<close>

definition running :: "state \<Rightarrow> chan \<Rightarrow> chan \<Rightarrow> bool" where
  "running w fc sc =
     (fwdChan w = Some fc \<and> \<not> is_closed fc \<and> storeChan w = Some sc \<and> \<not> is_closed sc)"

text \<open>The forward channel exists and is open.\<close>

definition fwd_open :: "state \<Rightarrow> chan \<Rightarrow> bool" where
  "fwd_open w fc = (fwdChan w = Some fc \<and> \<not> is_closed fc)"

text \<open>
  An outcome with its trace forgotten: two runs that agree on it have ended the same way
  with the same channels, store, record number and heap, and differ at most in what was
  logged on the way.
\<close>

definition forget_trace :: "outcome \<Rightarrow> outcome" where
  "forget_trace x =
     (case x of
        Ok s \<Rightarrow> Ok (s\<lparr>trace := []\<rparr>)
      | Blocked s \<Rightarrow> Blocked (s\<lparr>trace := []\<rparr>)
      | Panic s \<Rightarrow> Panic (s\<lparr>trace := []\<rparr>))"


text \<open>The record with other flags: \<open>x_offline\<close> in the settings, \<open>always_send\<close> in its control.\<close>

definition with_flags :: "bool option \<Rightarrow> bool \<Rightarrow> ref \<Rightarrow> state \<Rightarrow> state" where
  "with_flags off always a w =
     w\<lparr>settings := (settings w)\<lparr>XOffline := off\<rparr>,
       heap := (heap w)(a := (heap w a)
                 \<lparr>Control := Some \<lparr>Local = GetLocal (GetControl (heap w a)), AlwaysSend = always\<rparr>\<rparr>)\<rparr>"

subsection \<open>Example data\<close>

text \<open>
  Four records at the addresses 0 to 3: A is a data record, B a request, C a data record
  marked local, D a data record marked always_send. Every other address holds a record
  whose variant is unset.
\<close>

definition rec_unset :: pb_Record where
  "rec_unset = \<lparr>Num = 0, RecordType = None, Control = None\<rparr>"

definition rec_A :: pb_Record where
  "rec_A = \<lparr>Num = 0, RecordType = Some Record_History,
             Control = Some \<lparr>Local = False, AlwaysSend = False\<rparr>\<rparr>"

definition rec_B :: pb_Record where
  "rec_B = \<lparr>Num = 0, RecordType = Some Record_Request, Control = None\<rparr>"

definition rec_C :: pb_Record where
  "rec_C = \<lparr>Num = 0, RecordType = Some Record_Config,
             Control = Some \<lparr>Local = True, AlwaysSend = False\<rparr>\<rparr>"

definition rec_D :: pb_Record where
  "rec_D = \<lparr>Num = 0, RecordType = Some Record_Summary,
             Control = Some \<lparr>Local = False, AlwaysSend = True\<rparr>\<rparr>"

definition heap_ABCD :: "ref \<Rightarrow> pb_Record" where
  "heap_ABCD = (\<lambda>a. rec_unset)(0 := rec_A, 1 := rec_B, 2 := rec_C, 3 := rec_D)"

definition settings_online :: pb_Settings where
  "settings_online =
     \<lparr>XSync = None, XOffline = None, SyncFile = Some ''run.wandb'', RunId = Some ''r1''\<rparr>"

definition settings_offline :: pb_Settings where
  "settings_offline =
     \<lparr>XSync = None, XOffline = Some True, SyncFile = Some ''run.wandb'', RunId = Some ''r1''\<rparr>"

definition settings_sync :: pb_Settings where
  "settings_sync =
     \<lparr>XSync = Some True, XOffline = None, SyncFile = Some ''run.wandb'', RunId = Some ''r1''\<rparr>"

text \<open>An environment where nothing fails, and ones where one thing does.\<close>

definition env_ok :: env where
  "env_ok =
     \<lparr>marshal = (\<lambda>r. Some [unat (Num r)]), open_ok = (\<lambda>n. True),
      write_ok = (\<lambda>fs out. True), close_ok = (\<lambda>fs. True)\<rparr>"

definition env_no_open :: env where
  "env_no_open = env_ok\<lparr>open_ok := (\<lambda>n. False)\<rparr>"



text \<open>The Writer of the examples once its store is started: both channels empty and open.\<close>

definition started :: "pb_Settings \<Rightarrow> state" where
  "started s =
     \<lparr>settings = s, fwdChan = Some make_chan, storeChan = Some make_chan,
      store = Some ((store_New ''run.wandb'')\<lparr>is_open := True, header_written := True\<rparr>),
      recordNum = 0, wg = 1, heap = heap_ABCD, trace = []\<rparr>"


text \<open>
  The scenario of the spec: a new Writer, offline, with a store that opens, is fed
  A, B, C, D.
\<close>

definition scenario :: outcome where
  "scenario = Do env_ok (NewWriter settings_offline make_chan heap_ABCD) [0, 1, 2, 3]"



section \<open>Basic facts\<close>

lemmas example_defs =
  started_def NewWriter_def heap_ABCD_def rec_A_def rec_B_def rec_C_def rec_D_def rec_unset_def
  settings_online_def settings_offline_def settings_sync_def make_chan_def
  env_ok_def store_New_def

lemmas getter_defs =
  GetControl_def GetLocal_def GetAlwaysSend_def GetXSync_def GetXOffline_def GetSyncFile_def
  GetValue_def GetStringValue_def

lemmas writer_defs =
  Do_def startStore_def handleRecord_def sendRecord_def storeRecord_def Close_def wg_Wait_def
  store_worker_def chan_send_def chan_close_def store_Open_def store_Write_def store_Close_def
  CaptureFatalAndPanic_def logger_def emit_def Let_def

lemmas vocabulary_defs =
  persisted_def is_data_def forwarded_def passes_offline_def running_def fwd_open_def


lemma emit_fields [simp]:
  "settings (emit e w) = settings w" "fwdChan (emit e w) = fwdChan w"
  "storeChan (emit e w) = storeChan w" "store (emit e w) = store w"
  "recordNum (emit e w) = recordNum w" "wg (emit e w) = wg w"
  "heap (emit e w) = heap w" "trace (emit e w) = trace w @ [e]"
  by (simp_all add: emit_def)

lemma logger_fields [simp]:
  "settings (logger l m w) = settings w" "fwdChan (logger l m w) = fwdChan w"
  "storeChan (logger l m w) = storeChan w" "store (logger l m w) = store w"
  "recordNum (logger l m w) = recordNum w" "wg (logger l m w) = wg w"
  "heap (logger l m w) = heap w" "trace (logger l m w) = trace w @ [Log l m]"
  by (simp_all add: logger_def)

lemma handleRecord_running:
  assumes "running w fc sc"
  shows "handleRecord w a =
    Ok (w\<lparr>fwdChan := Some (fc\<lparr>sent := sent fc @ (if forwarded (settings w) (heap w a) then [a] else [])\<rparr>),
          storeChan := Some (sc\<lparr>sent := sent sc @ (if persisted (heap w a) then [a] else [])\<rparr>),
          recordNum := recordNum w + (if persisted (heap w a) then 1 else 0),
          heap := (if persisted (heap w a) then (heap w)(a := (heap w a)\<lparr>Num := recordNum w + 1\<rparr>) else heap w),
          trace := trace w @ events_of (settings w) (heap w) a\<rparr>)"
  using assms
  apply (cases "RecordType (heap w a)")
   apply (simp add: handleRecord_def running_def forwarded_def persisted_def is_data_def events_of_def logger_def)
  subgoal for t
    apply (cases t)
    apply (auto simp add: handleRecord_def running_def forwarded_def persisted_def is_data_def events_of_def logger_def emit_def
        sendRecord_def storeRecord_def chan_send_def passes_offline_def Let_def)
    done
  done

lemma persisted_Num [simp]: "persisted (r\<lparr>Num := n\<rparr>) = persisted r"
  by (simp add: persisted_def is_data_def GetControl_def)

lemma forwarded_Num [simp]: "forwarded s (r\<lparr>Num := n\<rparr>) = forwarded s r"
  by (simp add: forwarded_def passes_offline_def GetControl_def)

lemma persisted_upd [simp]: "persisted ((h(a := (h a)\<lparr>Num := n\<rparr>)) b) = persisted (h b)"
  by simp

lemma forwarded_upd [simp]: "forwarded s ((h(a := (h a)\<lparr>Num := n\<rparr>)) b) = forwarded s (h b)"
  by simp

lemma events_of_upd [simp]: "events_of s (h(a := (h a)\<lparr>Num := n\<rparr>)) b = events_of s h b"
  by (simp add: events_of_def passes_offline_def GetControl_def)

lemma running_step:
  assumes "running w fc sc"
  shows "\<exists>w1. handleRecord w a = Ok w1 \<and>
    running w1 (fc\<lparr>sent := sent fc @ (if forwarded (settings w) (heap w a) then [a] else [])\<rparr>)
               (sc\<lparr>sent := sent sc @ (if persisted (heap w a) then [a] else [])\<rparr>) \<and>
    recordNum w1 = recordNum w + (if persisted (heap w a) then 1 else 0) \<and>
    heap w1 = (if persisted (heap w a) then (heap w)(a := (heap w a)\<lparr>Num := recordNum w + 1\<rparr>) else heap w) \<and>
    trace w1 = trace w @ events_of (settings w) (heap w) a \<and>
    settings w1 = settings w \<and> store w1 = store w \<and> wg w1 = wg w"
  using assms by (simp add: handleRecord_running [OF assms] running_def)

lemma range_inChan_running:
  assumes "running w fc sc"
  shows "\<exists>w'. range_inChan w rs = Ok w' \<and>
     running w' (fc\<lparr>sent := sent fc @ filter (\<lambda>a. forwarded (settings w) (heap w a)) rs\<rparr>)
                (sc\<lparr>sent := sent sc @ filter (\<lambda>a. persisted (heap w a)) rs\<rparr>) \<and>
     recordNum w' = recordNum w + of_nat (length (filter (\<lambda>a. persisted (heap w a)) rs)) \<and>
     trace w' = trace w @ concat (map (events_of (settings w) (heap w)) rs) \<and>
     settings w' = settings w \<and> store w' = store w \<and> wg w' = wg w \<and>
     (\<forall>a. RecordType (heap w' a) = RecordType (heap w a) \<and> Control (heap w' a) = Control (heap w a)) \<and>
     (\<forall>a. a \<notin> set rs \<longrightarrow> heap w' a = heap w a)"
  using assms
proof (induction rs arbitrary: w fc sc)
  case Nil
  then show ?case by simp
next
  case (Cons a rs)
  from running_step [OF Cons.prems, of a] obtain w1 where
    w1: "handleRecord w a = Ok w1"
    and r1: "running w1 (fc\<lparr>sent := sent fc @ (if forwarded (settings w) (heap w a) then [a] else [])\<rparr>)
               (sc\<lparr>sent := sent sc @ (if persisted (heap w a) then [a] else [])\<rparr>)"
    and n1: "recordNum w1 = recordNum w + (if persisted (heap w a) then 1 else 0)"
    and h1: "heap w1 = (if persisted (heap w a) then (heap w)(a := (heap w a)\<lparr>Num := recordNum w + 1\<rparr>) else heap w)"
    and t1: "trace w1 = trace w @ events_of (settings w) (heap w) a"
    and s1: "settings w1 = settings w" "store w1 = store w" "wg w1 = wg w"
    by blast
  have p: "(\<lambda>b. persisted (heap w1 b)) = (\<lambda>b. persisted (heap w b))"
    by (rule ext) (simp add: h1)
  have f: "(\<lambda>b. forwarded (settings w1) (heap w1 b)) = (\<lambda>b. forwarded (settings w) (heap w b))"
    by (rule ext) (simp add: h1 s1)
  have e: "events_of (settings w1) (heap w1) = events_of (settings w) (heap w)"
    by (rule ext) (simp add: h1 s1)
  from Cons.IH [OF r1] obtain w' where
    IH: "range_inChan w1 rs = Ok w'"
     "running w' (fc\<lparr>sent := sent fc @ (if forwarded (settings w) (heap w a) then [a] else [])\<rparr>
                    \<lparr>sent := sent (fc\<lparr>sent := sent fc @ (if forwarded (settings w) (heap w a) then [a] else [])\<rparr>) @ filter (\<lambda>a. forwarded (settings w1) (heap w1 a)) rs\<rparr>)
                (sc\<lparr>sent := sent sc @ (if persisted (heap w a) then [a] else [])\<rparr>
                    \<lparr>sent := sent (sc\<lparr>sent := sent sc @ (if persisted (heap w a) then [a] else [])\<rparr>) @ filter (\<lambda>a. persisted (heap w1 a)) rs\<rparr>)"
     "recordNum w' = recordNum w1 + of_nat (length (filter (\<lambda>a. persisted (heap w1 a)) rs))"
     "trace w' = trace w1 @ concat (map (events_of (settings w1) (heap w1)) rs)"
     "settings w' = settings w1" "store w' = store w1" "wg w' = wg w1"
     and sh: "\<forall>a. RecordType (heap w' a) = RecordType (heap w1 a) \<and> Control (heap w' a) = Control (heap w1 a)"
     and fr: "\<forall>a. a \<notin> set rs \<longrightarrow> heap w' a = heap w1 a"
    by blast
  note IH' = IH [unfolded p f e]
  have c1: "range_inChan w (a # rs) = Ok w'"
    using w1 IH(1) by simp
  have c2: "running w' (fc\<lparr>sent := sent fc @ filter (\<lambda>a. forwarded (settings w) (heap w a)) (a # rs)\<rparr>)
                (sc\<lparr>sent := sent sc @ filter (\<lambda>a. persisted (heap w a)) (a # rs)\<rparr>)"
    using IH'(2)
    by (cases "forwarded (settings w) (heap w a)"; cases "persisted (heap w a)"; simp)
  have c3: "recordNum w' = recordNum w + of_nat (length (filter (\<lambda>a. persisted (heap w a)) (a # rs)))"
    using IH'(3) n1 by simp
  have c4: "trace w' = trace w @ concat (map (events_of (settings w) (heap w)) (a # rs))"
    using IH'(4) t1 by simp
  have c5: "settings w' = settings w" "store w' = store w" "wg w' = wg w"
    using IH(5-7) s1 by simp_all
  have c6: "\<forall>b. RecordType (heap w' b) = RecordType (heap w b) \<and> Control (heap w' b) = Control (heap w b)"
    using sh by (simp add: h1)
  have c7: "\<forall>b. b \<notin> set (a # rs) \<longrightarrow> heap w' b = heap w b"
    using fr by (simp add: h1)
  from c1 c2 c3 c4 c5 c6 c7 show ?case by blast
qed

lemma sint_of_nat_int64: "k < 2 ^ 63 \<Longrightarrow> sint (of_nat k :: int64) = int k"
  by (simp add: signed_of_nat signed_take_bit_int_eq_self)

lemma andThen_assoc: "andThen (andThen x f) g = andThen x (\<lambda>s. andThen (f s) g)"
  by (cases x) simp_all

lemma range_inChan_append:
  "range_inChan w (xs @ ys) = andThen (range_inChan w xs) (\<lambda>w'. range_inChan w' ys)"
  by (induction xs arbitrary: w) (simp_all add: andThen_assoc)

lemma final_nums:
  assumes "running w fc sc" "distinct rs" "range_inChan w rs = Ok w'"
  shows "map (\<lambda>a. Num (heap w' a)) (filter (\<lambda>a. persisted (heap w a)) rs) =
         map (\<lambda>i. recordNum w + of_nat (Suc i)) [0..<length (filter (\<lambda>a. persisted (heap w a)) rs)]"
  using assms
proof (induction rs arbitrary: w fc sc)
  case Nil
  then show ?case by simp
next
  case (Cons a rs)
  from running_step [OF Cons.prems(1), of a] obtain w1 where
    w1: "handleRecord w a = Ok w1"
    and r1: "running w1 (fc\<lparr>sent := sent fc @ (if forwarded (settings w) (heap w a) then [a] else [])\<rparr>)
               (sc\<lparr>sent := sent sc @ (if persisted (heap w a) then [a] else [])\<rparr>)"
    and n1: "recordNum w1 = recordNum w + (if persisted (heap w a) then 1 else 0)"
    and h1: "heap w1 = (if persisted (heap w a) then (heap w)(a := (heap w a)\<lparr>Num := recordNum w + 1\<rparr>) else heap w)"
    by blast
  have p: "(\<lambda>b. persisted (heap w1 b)) = (\<lambda>b. persisted (heap w b))"
    by (rule ext) (simp add: h1)
  have rest: "range_inChan w1 rs = Ok w'"
    using Cons.prems(3) w1 by simp
  have d: "distinct rs" "a \<notin> set rs"
    using Cons.prems(2) by simp_all
  note IH = Cons.IH [OF r1 d(1) rest, unfolded p]
  from range_inChan_running [OF r1, of rs] rest
  have keep: "heap w' a = heap w1 a"
    using d(2) by auto
  let ?n = "length (filter (\<lambda>a. persisted (heap w a)) rs)"
  show ?case
  proof (cases "persisted (heap w a)")
    case True
    then show ?thesis
      using IH keep h1 n1 by (simp add: map_upt_Suc del: upt_Suc)
  next
    case False
    then show ?thesis
      using IH n1 by simp
  qed
qed

lemma handleRecord_request:
  assumes "RecordType (heap w a) = Some Record_Request" and "fwd_open w fc"
  shows "handleRecord w a =
    Ok (w\<lparr>fwdChan := Some (fc\<lparr>sent := sent fc @ (if passes_offline (settings w) (heap w a) then [a] else [])\<rparr>),
          trace := trace w @ Log LDebug ''write: got a message'' #
                   (if passes_offline (settings w) (heap w a) then [Send FwdChan a] else [])\<rparr>)"
  using assms
  by (auto simp add: handleRecord_def sendRecord_def chan_send_def fwd_open_def passes_offline_def
      logger_def emit_def Let_def)

lemma fwdChan_same: "fwdChan w = x \<Longrightarrow> w\<lparr>fwdChan := x\<rparr> = (w::state)"
  by (cases w) simp

lemma handleRecord_data:
  assumes "is_data (heap w a)" and "fwd_open w fc"
  shows "handleRecord w a =
    storeRecord
      (w\<lparr>fwdChan := Some (fc\<lparr>sent := sent fc @ (if passes_offline (settings w) (heap w a) then [a] else [])\<rparr>),
         trace := trace w @ Log LDebug ''write: got a message'' #
                  (if passes_offline (settings w) (heap w a) then [Send FwdChan a] else [])\<rparr>) a"
proof (cases "RecordType (heap w a)")
  case None
  then show ?thesis using assms by (simp add: is_data_def)
next
  case (Some t)
  then have "t \<noteq> Record_Request" using assms by (simp add: is_data_def)
  then show ?thesis
    using Some assms(2)
    by (cases t)
      (auto simp add: handleRecord_def sendRecord_def chan_send_def fwd_open_def passes_offline_def
        logger_def emit_def Let_def fwdChan_same)
qed

lemma storeRecord_fields:
  "fwdChan (state_of (storeRecord w a)) = fwdChan w"
  "settings (state_of (storeRecord w a)) = settings w"
  "recordNum (state_of (storeRecord w a)) =
     recordNum w + (if GetLocal (GetControl (heap w a)) then 0 else 1)"
  "heap (state_of (storeRecord w a)) =
     (if GetLocal (GetControl (heap w a)) then heap w
      else (heap w)(a := (heap w a)\<lparr>Num := recordNum w + 1\<rparr>))"
  by (simp_all add: storeRecord_def chan_send_def emit_def Let_def split: option.split)

lemma storeRecord_open:
  assumes "storeChan w = Some sc" and "\<not> is_closed sc"
  shows "is_Ok (storeRecord w a)"
    and "storeChan (state_of (storeRecord w a)) =
           Some (sc\<lparr>sent := sent sc @ (if GetLocal (GetControl (heap w a)) then [] else [a])\<rparr>)"
  using assms by (simp_all add: storeRecord_def chan_send_def emit_def Let_def)

lemma storeRecord_cong:
  assumes "storeChan w' = storeChan w" and "recordNum w' = recordNum w"
    and "GetLocal (GetControl (heap w' a)) = GetLocal (GetControl (heap w a))"
  shows "storeChan (state_of (storeRecord w' a)) = storeChan (state_of (storeRecord w a))"
    and "recordNum (state_of (storeRecord w' a)) = recordNum (state_of (storeRecord w a))"
    and "Num (heap (state_of (storeRecord w' a)) a) =
         (if GetLocal (GetControl (heap w a)) then Num (heap w' a)
          else Num (heap (state_of (storeRecord w a)) a))"
    and "is_Ok (storeRecord w' a) = is_Ok (storeRecord w a)"
    and "is_Blocked (storeRecord w' a) = is_Blocked (storeRecord w a)"
  using assms by (simp_all add: storeRecord_def chan_send_def emit_def Let_def split: option.split)

lemma with_flags_fields [simp]:
  "fwdChan (with_flags off always a w) = fwdChan w"
  "storeChan (with_flags off always a w) = storeChan w"
  "recordNum (with_flags off always a w) = recordNum w"
  "RecordType (heap (with_flags off always a w) a) = RecordType (heap w a)"
  "GetLocal (GetControl (heap (with_flags off always a w) a)) = GetLocal (GetControl (heap w a))"
  "GetAlwaysSend (GetControl (heap (with_flags off always a w) a)) = always"
  "Num (heap (with_flags off always a w) a) = Num (heap w a)"
  "GetXOffline (settings (with_flags off always a w)) = off"
  by (simp_all add: with_flags_def getter_defs)

lemma passes_offline_Num [simp]: "passes_offline s (r\<lparr>Num := n\<rparr>) = passes_offline s r"
  by (simp add: passes_offline_def GetControl_def)

lemma scenario_eval:
  "scenario =
     Ok \<lparr>settings = settings_offline,
         fwdChan = Some \<lparr>sent = [3], is_closed = True\<rparr>,
         storeChan = Some \<lparr>sent = [0, 3], is_closed = True\<rparr>,
         store = Some \<lparr>name = ''run.wandb'', is_open = False, header_written = True,
                       frames = [[1], [2]], close_calls = 1\<rparr>,
         recordNum = 2, wg = 0,
         heap = heap_ABCD(0 := rec_A\<lparr>Num := 1\<rparr>, 3 := rec_D\<lparr>Num := 2\<rparr>),
         trace =
           [Log LInfo ''writer: started'', StoreOpen True,
            Log LDebug ''write: got a message'', Send StoreChan 0,
            Log LDebug ''write: got a message'',
            Log LDebug ''write: got a message'',
            Log LDebug ''write: got a message'', Send FwdChan 3, Send StoreChan 3,
            CloseChan FwdChan, CloseChan StoreChan, Log LInfo ''writer: closed'',
            StoreWrite [1] True, StoreWrite [2] True, StoreClose True]\<rparr>"
  by (simp add: scenario_def example_defs getter_defs writer_defs fun_upd_twist)

lemma handleRecord_not_persisted:
  assumes "fwd_open w fc" and "\<not> persisted (heap w a)"
  shows "handleRecord w a =
    Ok (w\<lparr>fwdChan := Some (fc\<lparr>sent := sent fc @ (if forwarded (settings w) (heap w a) then [a] else [])\<rparr>),
          trace := trace w @ events_of (settings w) (heap w) a\<rparr>)"
proof (cases "RecordType (heap w a)")
  case None
  then show ?thesis
    using assms(1)
    by (simp add: handleRecord_def logger_def events_of_def forwarded_def fwd_open_def fwdChan_same)
next
  case (Some t)
  show ?thesis
  proof (cases "t = Record_Request")
    case True
    then show ?thesis
      using Some handleRecord_request [OF _ assms(1), of a]
      by (simp add: events_of_def forwarded_def persisted_def is_data_def)
  next
    case False
    then have d: "is_data (heap w a)" using Some by (simp add: is_data_def)
    then have l: "GetLocal (GetControl (heap w a))" using assms(2) by (simp add: persisted_def)
    show ?thesis
      using Some l assms(2)
      by (simp add: handleRecord_data [OF d assms(1)] storeRecord_def events_of_def forwarded_def)
  qed
qed

lemma range_inChan_not_persisted:
  assumes "fwd_open w fc" and "\<forall>a\<in>set rs. \<not> persisted (heap w a)"
  shows "range_inChan w rs =
    Ok (w\<lparr>fwdChan := Some (fc\<lparr>sent := sent fc @ filter (\<lambda>a. forwarded (settings w) (heap w a)) rs\<rparr>),
          trace := trace w @ concat (map (events_of (settings w) (heap w)) rs)\<rparr>)"
  using assms
proof (induction rs arbitrary: w fc)
  case Nil
  then show ?case by (simp add: fwd_open_def fwdChan_same)
next
  case (Cons a rs)
  let ?w1 = "w\<lparr>fwdChan := Some (fc\<lparr>sent := sent fc @ (if forwarded (settings w) (heap w a) then [a] else [])\<rparr>),
          trace := trace w @ events_of (settings w) (heap w) a\<rparr>"
  have s: "handleRecord w a = Ok ?w1"
    using Cons.prems by (simp add: handleRecord_not_persisted)
  have f: "fwd_open ?w1 (fc\<lparr>sent := sent fc @ (if forwarded (settings w) (heap w a) then [a] else [])\<rparr>)"
    using Cons.prems(1) by (simp add: fwd_open_def)
  have n: "\<forall>a\<in>set rs. \<not> persisted (heap ?w1 a)"
    using Cons.prems(2) by simp
  show ?case
    by (simp add: s Cons.IH [OF f n])
qed

lemma handleRecord_nil_storeChan:
  assumes "fwd_open w fc" and "storeChan w = None" and "persisted (heap w a)"
  shows "handleRecord w a =
    Blocked (w\<lparr>fwdChan := Some (fc\<lparr>sent := sent fc @ (if forwarded (settings w) (heap w a) then [a] else [])\<rparr>),
               recordNum := recordNum w + 1,
               heap := (heap w)(a := (heap w a)\<lparr>Num := recordNum w + 1\<rparr>),
               trace := trace w @ Log LDebug ''write: got a message'' #
                        (if forwarded (settings w) (heap w a) then [Send FwdChan a] else [])\<rparr>)"
proof -
  have d: "is_data (heap w a)" and l: "\<not> GetLocal (GetControl (heap w a))"
    using assms(3) by (simp_all add: persisted_def)
  have f: "forwarded (settings w) (heap w a) = passes_offline (settings w) (heap w a)"
    using d by (simp add: forwarded_def is_data_def)
  show ?thesis
    using l assms(2)
    by (simp add: handleRecord_data [OF d assms(1)] storeRecord_def chan_send_def f Let_def)
qed

lemma forget_trace_simps [simp]:
  "forget_trace (Ok s) = Ok (s\<lparr>trace := []\<rparr>)"
  "forget_trace (Blocked s) = Blocked (s\<lparr>trace := []\<rparr>)"
  "forget_trace (Panic s) = Panic (s\<lparr>trace := []\<rparr>)"
  by (simp_all add: forget_trace_def)
























lemma range_inChan_nil_storeChan:
  assumes "fwd_open w fc" and "storeChan w = None"
    and "\<forall>x\<in>set xs. \<not> persisted (heap w x)" and "persisted (heap w a)"
  shows "range_inChan w (xs @ a # ys) =
       Blocked (w\<lparr>fwdChan := Some (fc\<lparr>sent := sent fc @
                       filter (\<lambda>a. forwarded (settings w) (heap w a)) (xs @ [a])\<rparr>),
                  recordNum := recordNum w + 1,
                  heap := (heap w)(a := (heap w a)\<lparr>Num := recordNum w + 1\<rparr>),
                  trace := trace w @ concat (map (events_of (settings w) (heap w)) xs) @
                           Log LDebug ''write: got a message'' #
                           (if forwarded (settings w) (heap w a) then [Send FwdChan a] else [])\<rparr>)"
proof -
  let ?w1 = "w\<lparr>fwdChan := Some (fc\<lparr>sent := sent fc @ filter (\<lambda>a. forwarded (settings w) (heap w a)) xs\<rparr>),
          trace := trace w @ concat (map (events_of (settings w) (heap w)) xs)\<rparr>"
  have 2: "range_inChan w xs = Ok ?w1"
    by (rule range_inChan_not_persisted [OF assms(1,3)])
  have f1: "fwd_open ?w1 (fc\<lparr>sent := sent fc @ filter (\<lambda>a. forwarded (settings w) (heap w a)) xs\<rparr>)"
    using assms(1) by (simp add: fwd_open_def)
  have s1: "storeChan ?w1 = None" using assms(2) by simp
  have p1: "persisted (heap ?w1 a)" using assms(4) by simp
  note 3 = handleRecord_nil_storeChan [OF f1 s1 p1]
  have 4: "range_inChan w (xs @ a # ys) = andThen (handleRecord ?w1 a) (\<lambda>w'. range_inChan w' ys)"
    by (simp only: range_inChan_append 2 andThen.simps range_inChan.simps)
  show ?thesis
    unfolding 4 3 by simp
qed

section \<open>The claims\<close>

text \<open>
  C1, as amended. When both channels exist and are open (the store was started) and the
  record number is 0, then for every sequence of inbound records the loop gets through
  all of them; the store channel receives exactly the data records (variant set, not a
  request) whose local flag is false, in arrival order; each such record gets, as it is
  handled, the number 1 + the count of such records before it, written into the record
  and kept as the record number; every other record leaves the record number, the heap
  and the store channel as they were. For pairwise distinct pointers the numbers read
  from the queued records afterwards are 1, 2, ..., n as 64-bit values, and as signed
  integers as long as n is below 2^63.
\<close>

theorem C1_sequence_numbers:
  assumes run: "running w fc sc" and zero: "recordNum w = 0"
  shows "\<exists>w'. range_inChan w rs = Ok w' \<and>
     storeChan w' = Some (sc\<lparr>sent := sent sc @ filter (\<lambda>a. persisted (heap w a)) rs\<rparr>) \<and>
     recordNum w' = of_nat (length (filter (\<lambda>a. persisted (heap w a)) rs)) \<and>
     (\<forall>xs a ys. rs = xs @ a # ys \<longrightarrow>
        (\<exists>w1 w2. range_inChan w xs = Ok w1 \<and> handleRecord w1 a = Ok w2 \<and>
           (if persisted (heap w a)
            then recordNum w2 = of_nat (Suc (length (filter (\<lambda>a. persisted (heap w a)) xs))) \<and>
                 Num (heap w2 a) = recordNum w2
            else recordNum w2 = recordNum w1 \<and> heap w2 = heap w1 \<and>
                 storeChan w2 = storeChan w1))) \<and>
     (distinct rs \<longrightarrow>
        map (\<lambda>a. Num (heap w' a)) (filter (\<lambda>a. persisted (heap w a)) rs) =
        map of_nat [1..<Suc (length (filter (\<lambda>a. persisted (heap w a)) rs))]) \<and>
     (distinct rs \<and> length (filter (\<lambda>a. persisted (heap w a)) rs) < 2 ^ 63 \<longrightarrow>
        map (\<lambda>a. sint (Num (heap w' a))) (filter (\<lambda>a. persisted (heap w a)) rs) =
        map int [1..<Suc (length (filter (\<lambda>a. persisted (heap w a)) rs))])"
proof -
  let ?P = "\<lambda>a. persisted (heap w a)"
  let ?n = "length (filter ?P rs)"
  from range_inChan_running [OF run, of rs] obtain w' where
    w': "range_inChan w rs = Ok w'"
    and sc': "running w' (fc\<lparr>sent := sent fc @ filter (\<lambda>a. forwarded (settings w) (heap w a)) rs\<rparr>)
                (sc\<lparr>sent := sent sc @ filter ?P rs\<rparr>)"
    and n': "recordNum w' = recordNum w + of_nat ?n"
    by blast
  have a: "storeChan w' = Some (sc\<lparr>sent := sent sc @ filter ?P rs\<rparr>)"
    using sc' by (simp add: running_def)
  have b: "recordNum w' = of_nat ?n"
    using n' zero by simp
  have c: "\<exists>w1 w2. range_inChan w xs = Ok w1 \<and> handleRecord w1 a = Ok w2 \<and>
           (if ?P a
            then recordNum w2 = of_nat (Suc (length (filter ?P xs))) \<and> Num (heap w2 a) = recordNum w2
            else recordNum w2 = recordNum w1 \<and> heap w2 = heap w1 \<and> storeChan w2 = storeChan w1)"
    for xs a
  proof -
    from range_inChan_running [OF run, of xs] obtain w1 fc1 sc1 where
      w1: "range_inChan w xs = Ok w1" and r1: "running w1 fc1 sc1"
      and n1: "recordNum w1 = recordNum w + of_nat (length (filter ?P xs))"
      and sh: "\<forall>a. RecordType (heap w1 a) = RecordType (heap w a) \<and> Control (heap w1 a) = Control (heap w a)"
      by blast
    have same: "persisted (heap w1 a) = persisted (heap w a)"
      using sh by (simp add: persisted_def is_data_def GetControl_def)
    from running_step [OF r1, of a] obtain w2 where
      w2: "handleRecord w1 a = Ok w2"
      and r2: "running w2 (fc1\<lparr>sent := sent fc1 @ (if forwarded (settings w1) (heap w1 a) then [a] else [])\<rparr>)
               (sc1\<lparr>sent := sent sc1 @ (if persisted (heap w1 a) then [a] else [])\<rparr>)"
      and n2: "recordNum w2 = recordNum w1 + (if persisted (heap w1 a) then 1 else 0)"
      and h2: "heap w2 = (if persisted (heap w1 a) then (heap w1)(a := (heap w1 a)\<lparr>Num := recordNum w1 + 1\<rparr>) else heap w1)"
      by blast
    show ?thesis
      apply (rule exI [of _ w1], rule exI [of _ w2])
      using w1 w2 n1 n2 h2 r1 r2 zero
      by (simp add: same running_def)
  qed
  have d: "map (\<lambda>a. Num (heap w' a)) (filter ?P rs) = map of_nat [1..<Suc ?n]" if "distinct rs"
  proof -
    have "map (\<lambda>a. Num (heap w' a)) (filter ?P rs) = map (\<lambda>i. of_nat (Suc i)) [0..<?n]"
      using final_nums [OF run that w'] zero by simp
    also have "\<dots> = map of_nat (map Suc [0..<?n])"
      by (simp add: comp_def)
    finally show ?thesis
      by (simp only: map_Suc_upt One_nat_def)
  qed
  have e: "map (\<lambda>a. sint (Num (heap w' a))) (filter ?P rs) = map int [1..<Suc ?n]"
    if "distinct rs" and "?n < 2 ^ 63"
  proof -
    have "map (\<lambda>a. sint (Num (heap w' a))) (filter ?P rs) = map sint (map (\<lambda>a. Num (heap w' a)) (filter ?P rs))"
      by (simp add: comp_def)
    also have "\<dots> = map (\<lambda>i. sint (of_nat i :: int64)) [1..<Suc ?n]"
      by (simp only: d [OF that(1)] map_map comp_def)
    also have "\<dots> = map int [1..<Suc ?n]"
      using that(2) by (intro map_cong refl sint_of_nat_int64) auto
    finally show ?thesis .
  qed
  show ?thesis
    apply (rule exI [of _ w'])
    using w' a b c d e by blast
qed

text \<open>
  C1 as stated fails when \<open>x_sync\<close> is set: \<^verbatim>\<open>startStore\<close> makes no store channel, the data
  record A (local false) is numbered 1 and the send on the nil channel blocks, so the
  record is never queued.
\<close>

theorem C1_counterexample:
  "persisted (heap_ABCD 0) \<and>
   is_Blocked (Do env_ok (NewWriter settings_sync make_chan heap_ABCD) [0]) \<and>
   storeChan (state_of (Do env_ok (NewWriter settings_sync make_chan heap_ABCD) [0])) = None \<and>
   recordNum (state_of (Do env_ok (NewWriter settings_sync make_chan heap_ABCD) [0])) = 1 \<and>
   Num (heap (state_of (Do env_ok (NewWriter settings_sync make_chan heap_ABCD) [0])) 0) = 1"
  by (simp add: example_defs getter_defs writer_defs vocabulary_defs)

text \<open>The amended C1 at the records A, B, C, D: A and D are queued with the numbers 1 and 2.\<close>

theorem C1_witness:
  "running (started settings_offline) make_chan make_chan \<and>
   recordNum (started settings_offline) = 0 \<and>
   (\<exists>w'. range_inChan (started settings_offline) [0, 1, 2, 3] = Ok w' \<and>
         storeChan w' = Some \<lparr>sent = [0, 3], is_closed = False\<rparr> \<and>
         recordNum w' = 2 \<and>
         map (\<lambda>a. sint (Num (heap w' a))) [0, 3] = [1, 2])"
proof -
  have r: "running (started settings_offline) make_chan make_chan"
    by (simp add: example_defs vocabulary_defs)
  have z: "recordNum (started settings_offline) = 0"
    by (simp add: example_defs)
  have f: "filter (\<lambda>a. persisted (heap (started settings_offline) a)) [0, 1, 2, 3] = [0, 3]"
    by (simp add: example_defs vocabulary_defs getter_defs)
  from C1_sequence_numbers [OF r z, of "[0, 1, 2, 3]"] obtain w' where
    "range_inChan (started settings_offline) [0, 1, 2, 3] = Ok w'"
    "storeChan w' = Some (make_chan\<lparr>sent := sent make_chan @ [0, 3]\<rparr>)"
    "recordNum w' = of_nat (length [0::nat, 3])"
    "distinct [0::nat, 1, 2, 3] \<and> length [0::nat, 3] < 2 ^ 63 \<longrightarrow>
        map (\<lambda>a. sint (Num (heap w' a))) [0, 3] = map int [1..<Suc (length [0::nat, 3])]"
    unfolding f by blast
  then show ?thesis
    using r z by (auto simp add: make_chan_def upt_rec)
qed

text \<open>
  C2, as amended. A record whose variant is a request is never queued for the store and
  never numbered, whatever \<open>x_offline\<close> and \<open>always_send\<close> are: the store channel, the
  store, the record number and the heap stay as they were, with or without a store
  channel. It is forwarded exactly when \<open>x_offline\<close> is false or its \<open>always_send\<close> flag
  is true: \<^verbatim>\<open>handleRecord\<close> passes it to \<^verbatim>\<open>sendRecord\<close>, whose offline rule makes no
  exception for requests. So in a run of the loop over records that include it, it is
  not among the records the store channel receives, and it is among those the forward
  channel receives exactly in that case.
\<close>

theorem C2_request_records:
  assumes "RecordType (heap w a) = Some Record_Request" and "fwd_open w fc"
  shows "is_Ok (handleRecord w a) \<and>
     fwdChan (state_of (handleRecord w a)) =
       Some (fc\<lparr>sent := sent fc @
               (if \<not> GetValue (GetXOffline (settings w)) \<or> GetAlwaysSend (GetControl (heap w a))
                then [a] else [])\<rparr>) \<and>
     storeChan (state_of (handleRecord w a)) = storeChan w \<and>
     store (state_of (handleRecord w a)) = store w \<and>
     recordNum (state_of (handleRecord w a)) = recordNum w \<and>
     heap (state_of (handleRecord w a)) = heap w \<and>
     trace (state_of (handleRecord w a)) =
       trace w @ Log LDebug ''write: got a message'' #
       (if \<not> GetValue (GetXOffline (settings w)) \<or> GetAlwaysSend (GetControl (heap w a))
        then [Send FwdChan a] else []) \<and>
     (\<forall>sc. storeChan w = Some sc \<and> \<not> is_closed sc \<and> a \<in> set rs \<longrightarrow>
        (\<exists>w' fc' sc'. range_inChan w rs = Ok w' \<and>
           fwdChan w' = Some fc' \<and> storeChan w' = Some sc' \<and>
           a \<notin> set (drop (length (sent sc)) (sent sc')) \<and>
           (a \<in> set (drop (length (sent fc)) (sent fc')) \<longleftrightarrow>
              \<not> GetValue (GetXOffline (settings w)) \<or> GetAlwaysSend (GetControl (heap w a)))))"
proof -
  have step: "handleRecord w a =
    Ok (w\<lparr>fwdChan := Some (fc\<lparr>sent := sent fc @ (if passes_offline (settings w) (heap w a) then [a] else [])\<rparr>),
          trace := trace w @ Log LDebug ''write: got a message'' #
                   (if passes_offline (settings w) (heap w a) then [Send FwdChan a] else [])\<rparr>)"
    by (rule handleRecord_request [OF assms])
  have np: "\<not> persisted (heap w a)"
    using assms(1) by (simp add: persisted_def is_data_def)
  have fw: "forwarded (settings w) (heap w a) \<longleftrightarrow>
      \<not> GetValue (GetXOffline (settings w)) \<or> GetAlwaysSend (GetControl (heap w a))"
    using assms(1) by (simp add: forwarded_def passes_offline_def)
  have loop: "\<exists>w' fc' sc'. range_inChan w rs = Ok w' \<and>
           fwdChan w' = Some fc' \<and> storeChan w' = Some sc' \<and>
           a \<notin> set (drop (length (sent sc)) (sent sc')) \<and>
           (a \<in> set (drop (length (sent fc)) (sent fc')) \<longleftrightarrow>
              \<not> GetValue (GetXOffline (settings w)) \<or> GetAlwaysSend (GetControl (heap w a)))"
    if h: "storeChan w = Some sc \<and> \<not> is_closed sc \<and> a \<in> set rs" for sc
  proof -
    have r: "running w fc sc"
      using assms(2) h by (simp add: running_def fwd_open_def)
    from range_inChan_running [OF r, of rs] obtain w' where
      w': "range_inChan w rs = Ok w'"
      and r': "running w' (fc\<lparr>sent := sent fc @ filter (\<lambda>a. forwarded (settings w) (heap w a)) rs\<rparr>)
                (sc\<lparr>sent := sent sc @ filter (\<lambda>a. persisted (heap w a)) rs\<rparr>)"
      by blast
    show ?thesis
      apply (rule exI [of _ w'])
      apply (rule exI [of _ "fc\<lparr>sent := sent fc @ filter (\<lambda>a. forwarded (settings w) (heap w a)) rs\<rparr>"])
      apply (rule exI [of _ "sc\<lparr>sent := sent sc @ filter (\<lambda>a. persisted (heap w a)) rs\<rparr>"])
      using w' r' np fw h
      apply (simp add: running_def)
      done
  qed
  from step loop show ?thesis
    by (simp add: passes_offline_def)
qed

text \<open>
  C2 as stated fails: with \<open>x_offline\<close> set, the request B (no control flags) is not put
  on the forward channel.
\<close>

theorem C2_counterexample:
  "RecordType (heap (started settings_offline) 1) = Some Record_Request \<and>
   fwdChan (started settings_offline) = Some \<lparr>sent = [], is_closed = False\<rparr> \<and>
   is_Ok (handleRecord (started settings_offline) 1) \<and>
   fwdChan (state_of (handleRecord (started settings_offline) 1)) =
     Some \<lparr>sent = [], is_closed = False\<rparr>"
  by (simp add: example_defs getter_defs writer_defs)

text \<open>
  The amended C2 at the request B when not offline: forwarded, not queued, not numbered.
\<close>

theorem C2_witness:
  "RecordType (heap (started settings_online) 1) = Some Record_Request \<and>
   fwd_open (started settings_online) make_chan \<and>
   storeChan (started settings_online) = Some make_chan \<and> \<not> is_closed make_chan \<and>
   is_Ok (handleRecord (started settings_online) 1) \<and>
   fwdChan (state_of (handleRecord (started settings_online) 1)) =
     Some \<lparr>sent = [1], is_closed = False\<rparr> \<and>
   storeChan (state_of (handleRecord (started settings_online) 1)) =
     Some \<lparr>sent = [], is_closed = False\<rparr> \<and>
   recordNum (state_of (handleRecord (started settings_online) 1)) = 0 \<and>
   (\<exists>w' fc' sc'. range_inChan (started settings_online) [0, 1, 3] = Ok w' \<and>
      fwdChan w' = Some fc' \<and> storeChan w' = Some sc' \<and>
      1 \<notin> set (sent sc') \<and> 1 \<in> set (sent fc'))"
proof -
  have r: "RecordType (heap (started settings_online) 1) = Some Record_Request"
    by (simp add: example_defs)
  have f: "fwd_open (started settings_online) make_chan"
    by (simp add: example_defs fwd_open_def)
  have s: "storeChan (started settings_online) = Some make_chan \<and> \<not> is_closed make_chan \<and>
      (1::nat) \<in> set [0, 1, 3]"
    by (simp add: example_defs)
  note t = C2_request_records [OF r f, of "[0, 1, 3]"]
  from t have 1: "is_Ok (handleRecord (started settings_online) 1) \<and>
   fwdChan (state_of (handleRecord (started settings_online) 1)) =
     Some \<lparr>sent = [1], is_closed = False\<rparr> \<and>
   storeChan (state_of (handleRecord (started settings_online) 1)) =
     Some \<lparr>sent = [], is_closed = False\<rparr> \<and>
   recordNum (state_of (handleRecord (started settings_online) 1)) = 0"
    by (simp add: example_defs getter_defs)
  from t s obtain w' fc' sc' where
    "range_inChan (started settings_online) [0, 1, 3] = Ok w'"
    "fwdChan w' = Some fc'" "storeChan w' = Some sc'"
    "1 \<notin> set (drop (length (sent make_chan)) (sent sc'))"
    "1 \<in> set (drop (length (sent make_chan)) (sent fc')) \<longleftrightarrow>
       \<not> GetValue (GetXOffline (settings (started settings_online))) \<or>
       GetAlwaysSend (GetControl (heap (started settings_online) 1))"
    by blast
  then have 2: "\<exists>w' fc' sc'. range_inChan (started settings_online) [0, 1, 3] = Ok w' \<and>
      fwdChan w' = Some fc' \<and> storeChan w' = Some sc' \<and>
      1 \<notin> set (sent sc') \<and> 1 \<in> set (sent fc')"
    by (simp add: example_defs getter_defs)
  from r f s 1 2 show ?thesis by simp
qed

text \<open>
  C3. While both channels are open, the loop gets through every sequence of inbound
  records, and its trace is the concatenation, in arrival order, of the events of each
  record. For a data record these are: the debug line, then the send on the forward
  channel (if the offline rule lets it through), then the send on the store channel
  (unless the record is local). So the forward step comes before the persistence step,
  the hand-off to the store channel is complete before the next record is taken, and
  the store channel receives the persisted records in arrival order. Without a store
  channel the order is the same as far as the loop gets: the first record to persist is
  forwarded first, then the loop blocks in the hand-off and takes no further record.
\<close>

theorem C3_forward_then_store:
  "(running w fc sc \<longrightarrow>
     (\<exists>w'. range_inChan w rs = Ok w' \<and>
        trace w' = trace w @ concat (map (events_of (settings w) (heap w)) rs) \<and>
        storeChan w' = Some (sc\<lparr>sent := sent sc @ filter (\<lambda>a. persisted (heap w a)) rs\<rparr>))) \<and>
   (\<forall>a. is_data (heap w a) \<longrightarrow>
      events_of (settings w) (heap w) a =
        [Log LDebug ''write: got a message''] @
        (if passes_offline (settings w) (heap w a) then [Send FwdChan a] else []) @
        (if GetLocal (GetControl (heap w a)) then [] else [Send StoreChan a])) \<and>
   (fwd_open w fc \<and> storeChan w = None \<and> (\<forall>x\<in>set xs. \<not> persisted (heap w x)) \<and>
    persisted (heap w a) \<longrightarrow>
      is_Blocked (range_inChan w (xs @ a # ys)) \<and>
      trace (state_of (range_inChan w (xs @ a # ys))) =
        trace w @ concat (map (events_of (settings w) (heap w)) xs) @
        [Log LDebug ''write: got a message''] @
        (if passes_offline (settings w) (heap w a) then [Send FwdChan a] else []))"
proof (intro conjI impI allI)
  assume r: "running w fc sc"
  from range_inChan_running [OF r, of rs] obtain w' where
    "range_inChan w rs = Ok w'"
    "running w' (fc\<lparr>sent := sent fc @ filter (\<lambda>a. forwarded (settings w) (heap w a)) rs\<rparr>)
                (sc\<lparr>sent := sent sc @ filter (\<lambda>a. persisted (heap w a)) rs\<rparr>)"
    "trace w' = trace w @ concat (map (events_of (settings w) (heap w)) rs)"
    by blast
  then show "\<exists>w'. range_inChan w rs = Ok w' \<and>
        trace w' = trace w @ concat (map (events_of (settings w) (heap w)) rs) \<and>
        storeChan w' = Some (sc\<lparr>sent := sent sc @ filter (\<lambda>a. persisted (heap w a)) rs\<rparr>)"
    by (auto simp add: running_def)
next
  fix b
  assume "is_data (heap w b)"
  then show "events_of (settings w) (heap w) b =
        [Log LDebug ''write: got a message''] @
        (if passes_offline (settings w) (heap w b) then [Send FwdChan b] else []) @
        (if GetLocal (GetControl (heap w b)) then [] else [Send StoreChan b])"
    by (simp add: events_of_def persisted_def is_data_def)
next
  assume h: "fwd_open w fc \<and> storeChan w = None \<and> (\<forall>x\<in>set xs. \<not> persisted (heap w x)) \<and>
    persisted (heap w a)"
  then have b: "range_inChan w (xs @ a # ys) =
       Blocked (w\<lparr>fwdChan := Some (fc\<lparr>sent := sent fc @
                       filter (\<lambda>a. forwarded (settings w) (heap w a)) (xs @ [a])\<rparr>),
                  recordNum := recordNum w + 1,
                  heap := (heap w)(a := (heap w a)\<lparr>Num := recordNum w + 1\<rparr>),
                  trace := trace w @ concat (map (events_of (settings w) (heap w)) xs) @
                           Log LDebug ''write: got a message'' #
                           (if forwarded (settings w) (heap w a) then [Send FwdChan a] else [])\<rparr>)"
    by (intro range_inChan_nil_storeChan) simp_all
  show "is_Blocked (range_inChan w (xs @ a # ys))"
    by (simp add: b)
  have "forwarded (settings w) (heap w a) = passes_offline (settings w) (heap w a)"
    using h by (simp add: forwarded_def persisted_def is_data_def)
  then show "trace (state_of (range_inChan w (xs @ a # ys))) =
        trace w @ concat (map (events_of (settings w) (heap w)) xs) @
        [Log LDebug ''write: got a message''] @
        (if passes_offline (settings w) (heap w a) then [Send FwdChan a] else [])"
    by (simp add: b)
qed

text \<open>
  C3 at the records A, C, D when not offline, and at C, A, D without a store channel.
\<close>

theorem C3_witness:
  "running (started settings_online) make_chan make_chan \<and>
   is_data (heap (started settings_online) 0) \<and>
   (\<exists>w'. range_inChan (started settings_online) [0, 2, 3] = Ok w' \<and>
      trace w' =
        [Log LDebug ''write: got a message'', Send FwdChan 0, Send StoreChan 0,
         Log LDebug ''write: got a message'', Send FwdChan 2,
         Log LDebug ''write: got a message'', Send FwdChan 3, Send StoreChan 3] \<and>
      storeChan w' = Some \<lparr>sent = [0, 3], is_closed = False\<rparr>) \<and>
   events_of settings_online heap_ABCD 0 =
     [Log LDebug ''write: got a message'', Send FwdChan 0, Send StoreChan 0] \<and>
   fwd_open (NewWriter settings_sync make_chan heap_ABCD) make_chan \<and>
   storeChan (NewWriter settings_sync make_chan heap_ABCD) = None \<and>
   \<not> persisted (heap (NewWriter settings_sync make_chan heap_ABCD) 2) \<and>
   persisted (heap (NewWriter settings_sync make_chan heap_ABCD) 0) \<and>
   is_Blocked (range_inChan (NewWriter settings_sync make_chan heap_ABCD) [2, 0, 3]) \<and>
   trace (state_of (range_inChan (NewWriter settings_sync make_chan heap_ABCD) [2, 0, 3])) =
     [Log LDebug ''write: got a message'', Send FwdChan 2,
      Log LDebug ''write: got a message'', Send FwdChan 0]"
proof -
  let ?V = "NewWriter settings_sync make_chan heap_ABCD"
  have r: "running (started settings_online) make_chan make_chan"
    by (simp add: example_defs vocabulary_defs)
  have d: "is_data (heap (started settings_online) 0)"
    by (simp add: example_defs vocabulary_defs)
  note t = C3_forward_then_store [of "started settings_online" make_chan make_chan "[0, 2, 3]" "[]" 0 "[]"]
  from t r obtain w' where
    "range_inChan (started settings_online) [0, 2, 3] = Ok w'"
    "trace w' = trace (started settings_online) @
       concat (map (events_of (settings (started settings_online)) (heap (started settings_online))) [0, 2, 3])"
    "storeChan w' = Some (make_chan\<lparr>sent := sent make_chan @
       filter (\<lambda>a. persisted (heap (started settings_online) a)) [0, 2, 3]\<rparr>)"
    by blast
  then have 1: "\<exists>w'. range_inChan (started settings_online) [0, 2, 3] = Ok w' \<and>
      trace w' =
        [Log LDebug ''write: got a message'', Send FwdChan 0, Send StoreChan 0,
         Log LDebug ''write: got a message'', Send FwdChan 2,
         Log LDebug ''write: got a message'', Send FwdChan 3, Send StoreChan 3] \<and>
      storeChan w' = Some \<lparr>sent = [0, 3], is_closed = False\<rparr>"
    by (simp add: example_defs vocabulary_defs getter_defs events_of_def)
  from t d have "events_of (settings (started settings_online)) (heap (started settings_online)) 0 =
        [Log LDebug ''write: got a message''] @
        (if passes_offline (settings (started settings_online)) (heap (started settings_online) 0)
         then [Send FwdChan 0] else []) @
        (if GetLocal (GetControl (heap (started settings_online) 0)) then [] else [Send StoreChan 0])"
    by blast
  then have 2: "events_of settings_online heap_ABCD 0 =
     [Log LDebug ''write: got a message'', Send FwdChan 0, Send StoreChan 0]"
    by (simp add: example_defs vocabulary_defs getter_defs)
  have h: "fwd_open ?V make_chan \<and> storeChan ?V = None \<and>
      (\<forall>x\<in>set [2]. \<not> persisted (heap ?V x)) \<and> persisted (heap ?V 0)"
    by (simp add: example_defs vocabulary_defs getter_defs)
  from C3_forward_then_store [of ?V make_chan make_chan "[]" "[2]" 0 "[3]"] h
  have "is_Blocked (range_inChan ?V ([2] @ 0 # [3])) \<and>
      trace (state_of (range_inChan ?V ([2] @ 0 # [3]))) =
        trace ?V @ concat (map (events_of (settings ?V) (heap ?V)) [2]) @
        [Log LDebug ''write: got a message''] @
        (if passes_offline (settings ?V) (heap ?V 0) then [Send FwdChan 0] else [])"
    by blast
  then have 3: "is_Blocked (range_inChan ?V [2, 0, 3]) \<and>
      trace (state_of (range_inChan ?V [2, 0, 3])) =
     [Log LDebug ''write: got a message'', Send FwdChan 2,
      Log LDebug ''write: got a message'', Send FwdChan 0]"
    by (simp add: example_defs vocabulary_defs getter_defs events_of_def)
  from r d 1 2 h 3 show ?thesis by simp
qed

text \<open>
  C4. For a data record and an open forward channel: with \<open>x_offline\<close> set the record is
  forwarded exactly when its \<open>always_send\<close> flag is set, otherwise it is always forwarded.
  The record is numbered for the store exactly when its local flag is false, and with an
  open store channel it is queued exactly then. What happens on the store side (store
  channel, record number, the number written into the record, whether the call returns)
  is the same for every value of \<open>x_offline\<close> and \<open>always_send\<close>.
\<close>

theorem C4_offline_rule:
  assumes "is_data (heap w a)" and "fwd_open w fc"
  shows "fwdChan (state_of (handleRecord w a)) =
       Some (fc\<lparr>sent := sent fc @
               (if GetValue (GetXOffline (settings w))
                then (if GetAlwaysSend (GetControl (heap w a)) then [a] else [])
                else [a])\<rparr>) \<and>
     recordNum (state_of (handleRecord w a)) =
       recordNum w + (if GetLocal (GetControl (heap w a)) then 0 else 1) \<and>
     (\<forall>sc. storeChan w = Some sc \<and> \<not> is_closed sc \<longrightarrow>
        is_Ok (handleRecord w a) \<and>
        storeChan (state_of (handleRecord w a)) =
          Some (sc\<lparr>sent := sent sc @ (if GetLocal (GetControl (heap w a)) then [] else [a])\<rparr>)) \<and>
     (\<forall>off always.
        storeChan (state_of (handleRecord (with_flags off always a w) a)) =
          storeChan (state_of (handleRecord w a)) \<and>
        recordNum (state_of (handleRecord (with_flags off always a w) a)) =
          recordNum (state_of (handleRecord w a)) \<and>
        Num (heap (state_of (handleRecord (with_flags off always a w) a)) a) =
          Num (heap (state_of (handleRecord w a)) a) \<and>
        is_Ok (handleRecord (with_flags off always a w) a) = is_Ok (handleRecord w a))"
proof -
  let ?w1 = "w\<lparr>fwdChan := Some (fc\<lparr>sent := sent fc @ (if passes_offline (settings w) (heap w a) then [a] else [])\<rparr>),
         trace := trace w @ Log LDebug ''write: got a message'' #
                  (if passes_offline (settings w) (heap w a) then [Send FwdChan a] else [])\<rparr>"
  have h: "handleRecord w a = storeRecord ?w1 a"
    by (rule handleRecord_data [OF assms])
  have 1: "fwdChan (state_of (handleRecord w a)) =
       Some (fc\<lparr>sent := sent fc @
               (if GetValue (GetXOffline (settings w))
                then (if GetAlwaysSend (GetControl (heap w a)) then [a] else [])
                else [a])\<rparr>)"
    by (simp add: h storeRecord_fields passes_offline_def)
  have 2: "recordNum (state_of (handleRecord w a)) =
       recordNum w + (if GetLocal (GetControl (heap w a)) then 0 else 1)"
    by (simp add: h storeRecord_fields)
  have 3: "is_Ok (handleRecord w a) \<and>
        storeChan (state_of (handleRecord w a)) =
          Some (sc\<lparr>sent := sent sc @ (if GetLocal (GetControl (heap w a)) then [] else [a])\<rparr>)"
    if "storeChan w = Some sc \<and> \<not> is_closed sc" for sc
    using that storeRecord_open [of ?w1 sc a] by (simp add: h)
  have 4: "storeChan (state_of (handleRecord (with_flags off always a w) a)) =
          storeChan (state_of (handleRecord w a)) \<and>
        recordNum (state_of (handleRecord (with_flags off always a w) a)) =
          recordNum (state_of (handleRecord w a)) \<and>
        Num (heap (state_of (handleRecord (with_flags off always a w) a)) a) =
          Num (heap (state_of (handleRecord w a)) a) \<and>
        is_Ok (handleRecord (with_flags off always a w) a) = is_Ok (handleRecord w a)"
    for off always
  proof -
    let ?v = "with_flags off always a w"
    let ?v1 = "?v\<lparr>fwdChan := Some (fc\<lparr>sent := sent fc @ (if passes_offline (settings ?v) (heap ?v a) then [a] else [])\<rparr>),
         trace := trace ?v @ Log LDebug ''write: got a message'' #
                  (if passes_offline (settings ?v) (heap ?v a) then [Send FwdChan a] else [])\<rparr>"
    have d: "is_data (heap ?v a)" using assms(1) by (simp add: is_data_def)
    have f: "fwd_open ?v fc" using assms(2) by (simp add: fwd_open_def)
    have h': "handleRecord ?v a = storeRecord ?v1 a"
      by (rule handleRecord_data [OF d f])
    have n: "Num (heap (state_of (storeRecord ?w1 a)) a) =
        (if GetLocal (GetControl (heap w a)) then Num (heap w a) else recordNum w + 1)"
      by (simp add: storeRecord_fields)
    show ?thesis
      unfolding h h'
      using storeRecord_cong [of ?v1 ?w1 a] n by simp
  qed
  from 1 2 3 4 show ?thesis by blast
qed

text \<open>
  C4 at the data record A when offline: not forwarded, queued with number 1; and queued
  just the same with \<open>x_offline\<close> unset and \<open>always_send\<close> set.
\<close>

theorem C4_witness:
  "is_data (heap (started settings_offline) 0) \<and>
   fwd_open (started settings_offline) make_chan \<and>
   storeChan (started settings_offline) = Some make_chan \<and> \<not> is_closed make_chan \<and>
   is_Ok (handleRecord (started settings_offline) 0) \<and>
   fwdChan (state_of (handleRecord (started settings_offline) 0)) =
     Some \<lparr>sent = [], is_closed = False\<rparr> \<and>
   storeChan (state_of (handleRecord (started settings_offline) 0)) =
     Some \<lparr>sent = [0], is_closed = False\<rparr> \<and>
   recordNum (state_of (handleRecord (started settings_offline) 0)) = 1 \<and>
   storeChan (state_of (handleRecord (with_flags None True 0 (started settings_offline)) 0)) =
     Some \<lparr>sent = [0], is_closed = False\<rparr>"
proof -
  have d: "is_data (heap (started settings_offline) 0)"
    by (simp add: example_defs is_data_def)
  have f: "fwd_open (started settings_offline) make_chan"
    by (simp add: example_defs fwd_open_def)
  have s: "storeChan (started settings_offline) = Some make_chan \<and> \<not> is_closed make_chan"
    by (simp add: example_defs)
  note t = C4_offline_rule [OF d f]
  from t have 1: "fwdChan (state_of (handleRecord (started settings_offline) 0)) =
     Some \<lparr>sent = [], is_closed = False\<rparr>"
    by (simp add: example_defs getter_defs)
  from t have 2: "recordNum (state_of (handleRecord (started settings_offline) 0)) = 1"
    by (simp add: example_defs getter_defs)
  from t s have 3: "is_Ok (handleRecord (started settings_offline) 0) \<and>
     storeChan (state_of (handleRecord (started settings_offline) 0)) =
       Some (make_chan\<lparr>sent := sent make_chan @
          (if GetLocal (GetControl (heap (started settings_offline) 0)) then [] else [0])\<rparr>)"
    by blast
  then have 3: "is_Ok (handleRecord (started settings_offline) 0) \<and>
     storeChan (state_of (handleRecord (started settings_offline) 0)) =
       Some \<lparr>sent = [0], is_closed = False\<rparr>"
    by (simp add: example_defs getter_defs)
  from t have "storeChan (state_of (handleRecord (with_flags None True 0 (started settings_offline)) 0)) =
          storeChan (state_of (handleRecord (started settings_offline) 0))"
    by blast
  with 3 have 4: "storeChan (state_of (handleRecord (with_flags None True 0 (started settings_offline)) 0)) =
     Some \<lparr>sent = [0], is_closed = False\<rparr>"
    by simp
  from d f s 1 2 3 4 show ?thesis by blast
qed



text \<open>
  C6, as amended. In the scenario (A data, B request, C data and local, D data and
  always_send, \<open>x_offline\<close> set) \<^verbatim>\<open>Do\<close> returns; the forward channel has received exactly
  D; the store channel has received exactly A then D, numbered 1 and 2, and these are
  the two frames written; B and C are not queued for the store.
\<close>

theorem C6_scenario:
  "is_Ok scenario \<and>
   fwdChan (state_of scenario) = Some \<lparr>sent = [3], is_closed = True\<rparr> \<and>
   storeChan (state_of scenario) = Some \<lparr>sent = [0, 3], is_closed = True\<rparr> \<and>
   Num (heap (state_of scenario) 0) = 1 \<and>
   Num (heap (state_of scenario) 3) = 2 \<and>
   map_option frames (store (state_of scenario)) = Some [[1], [2]]"
  by (simp add: scenario_eval rec_A_def rec_D_def)

text \<open>
  C6 as stated fails: the request B is not forwarded, the forward channel receives D
  alone and not B then D.
\<close>

theorem C6_counterexample:
  "RecordType (heap_ABCD 1) = Some Record_Request \<and>
   map_option sent (fwdChan (state_of scenario)) = Some [3] \<and>
   map_option sent (fwdChan (state_of scenario)) \<noteq> Some [1, 3]"
  by (simp add: scenario_eval heap_ABCD_def rec_B_def)

text \<open>
  C7. If \<open>x_sync\<close> is not set and the store's \<^verbatim>\<open>Open\<close> fails, \<^verbatim>\<open>Do\<close> panics after the
  fatal error is captured: whatever the inbound records, none is handled. The forward
  channel, the record number and the heap are as before, the store channel just made is
  empty, and the trace holds no line of \<^verbatim>\<open>handleRecord\<close>.
\<close>

theorem C7_open_fails:
  assumes "\<not> GetValue (GetXSync (settings w))"
    and "\<not> open_ok E (GetStringValue (GetSyncFile (settings w)))"
  shows "Do E w inChan =
     Panic (w\<lparr>storeChan := Some make_chan,
              store := Some (store_New (GetStringValue (GetSyncFile (settings w)))),
              trace := trace w @ [Log LInfo ''writer: started'', StoreOpen False,
                                  Log LCaptureFatal ''writer: error creating store'']\<rparr>) \<and>
     is_Panic (Do E w inChan) \<and>
     fwdChan (state_of (Do E w inChan)) = fwdChan w \<and>
     storeChan (state_of (Do E w inChan)) = Some \<lparr>sent = [], is_closed = False\<rparr> \<and>
     recordNum (state_of (Do E w inChan)) = recordNum w \<and>
     heap (state_of (Do E w inChan)) = heap w \<and>
     Log LDebug ''write: got a message'' \<notin> set (drop (length (trace w)) (trace (state_of (Do E w inChan))))"
proof -
  have "Do E w inChan =
     Panic (w\<lparr>storeChan := Some make_chan,
              store := Some (store_New (GetStringValue (GetSyncFile (settings w)))),
              trace := trace w @ [Log LInfo ''writer: started'', StoreOpen False,
                                  Log LCaptureFatal ''writer: error creating store'']\<rparr>)"
    using assms
    by (simp add: Do_def startStore_def store_Open_def store_New_def CaptureFatalAndPanic_def
        logger_def emit_def Let_def)
  then show ?thesis
    by (simp add: make_chan_def)
qed

text \<open>
  C7 at a new Writer fed A, B, C, D when the file cannot be opened.
\<close>

theorem C7_witness:
  "\<not> GetValue (GetXSync (settings (NewWriter settings_online make_chan heap_ABCD))) \<and>
   \<not> open_ok env_no_open
        (GetStringValue (GetSyncFile (settings (NewWriter settings_online make_chan heap_ABCD)))) \<and>
   is_Panic (Do env_no_open (NewWriter settings_online make_chan heap_ABCD) [0, 1, 2, 3]) \<and>
   fwdChan (state_of (Do env_no_open (NewWriter settings_online make_chan heap_ABCD) [0, 1, 2, 3])) =
     Some \<lparr>sent = [], is_closed = False\<rparr> \<and>
   recordNum (state_of (Do env_no_open (NewWriter settings_online make_chan heap_ABCD) [0, 1, 2, 3])) = 0 \<and>
   trace (state_of (Do env_no_open (NewWriter settings_online make_chan heap_ABCD) [0, 1, 2, 3])) =
     [Log LInfo ''writer: started'', StoreOpen False,
      Log LCaptureFatal ''writer: error creating store'']"
proof -
  have a: "\<not> GetValue (GetXSync (settings (NewWriter settings_online make_chan heap_ABCD)))"
    by (simp add: example_defs getter_defs)
  have b: "\<not> open_ok env_no_open
        (GetStringValue (GetSyncFile (settings (NewWriter settings_online make_chan heap_ABCD))))"
    by (simp add: env_no_open_def example_defs getter_defs)
  from C7_open_fails [OF a b, of "[0, 1, 2, 3]"] show ?thesis
    using a b by (simp add: NewWriter_def make_chan_def)
qed





text \<open>
  C10. With \<open>x_sync\<close> set, \<^verbatim>\<open>startStore\<close> returns at once: no store channel, no store.
  The records before the first non-local data record are handled (none of them touches
  the store channel). That record is forwarded as the offline rule says, the record
  number goes up by one and is written into the record, and the send on the nil store
  channel blocks: \<^verbatim>\<open>Do\<close> never returns, the later records are never taken, the forward
  channel is never closed.
\<close>

theorem C10_sync_blocks:
  assumes "GetValue (GetXSync (settings w))" and "storeChan w = None" and "fwd_open w fc"
    and "\<forall>x\<in>set xs. \<not> persisted (heap w x)" and "persisted (heap w a)"
  shows "startStore E w = Ok w \<and>
     Do E w (xs @ a # ys) =
       Blocked (w\<lparr>fwdChan := Some (fc\<lparr>sent := sent fc @
                       filter (\<lambda>a. forwarded (settings w) (heap w a)) (xs @ [a])\<rparr>),
                  recordNum := recordNum w + 1,
                  heap := (heap w)(a := (heap w a)\<lparr>Num := recordNum w + 1\<rparr>),
                  trace := trace w @ [Log LInfo ''writer: started''] @
                           concat (map (events_of (settings w) (heap w)) xs) @
                           Log LDebug ''write: got a message'' #
                           (if forwarded (settings w) (heap w a) then [Send FwdChan a] else [])\<rparr>) \<and>
     is_Blocked (Do E w (xs @ a # ys)) \<and>
     storeChan (state_of (Do E w (xs @ a # ys))) = None \<and>
     store (state_of (Do E w (xs @ a # ys))) = store w \<and>
     recordNum (state_of (Do E w (xs @ a # ys))) = recordNum w + 1 \<and>
     Num (heap (state_of (Do E w (xs @ a # ys))) a) = recordNum w + 1"
proof -
  let ?w0 = "logger LInfo ''writer: started'' w"
  have 1: "startStore E w = Ok w" "startStore E ?w0 = Ok ?w0"
    using assms(1) by (simp_all add: startStore_def)
  have f0: "fwd_open ?w0 fc" using assms(3) by (simp add: fwd_open_def)
  have n0: "\<forall>x\<in>set xs. \<not> persisted (heap ?w0 x)" using assms(4) by simp
  let ?w1 = "?w0\<lparr>fwdChan := Some (fc\<lparr>sent := sent fc @ filter (\<lambda>a. forwarded (settings ?w0) (heap ?w0 a)) xs\<rparr>),
          trace := trace ?w0 @ concat (map (events_of (settings ?w0) (heap ?w0)) xs)\<rparr>"
  have 2: "range_inChan ?w0 xs = Ok ?w1"
    by (rule range_inChan_not_persisted [OF f0 n0])
  have f1: "fwd_open ?w1 (fc\<lparr>sent := sent fc @ filter (\<lambda>a. forwarded (settings ?w0) (heap ?w0 a)) xs\<rparr>)"
    using assms(3) by (simp add: fwd_open_def)
  have s1: "storeChan ?w1 = None" using assms(2) by simp
  have p1: "persisted (heap ?w1 a)" using assms(5) by simp
  note 3 = handleRecord_nil_storeChan [OF f1 s1 p1]
  have 4: "range_inChan ?w0 (xs @ a # ys) = andThen (handleRecord ?w1 a) (\<lambda>w'. range_inChan w' ys)"
    by (simp only: range_inChan_append 2 andThen.simps range_inChan.simps)
  have 5: "Do E w (xs @ a # ys) =
     andThen (andThen (handleRecord ?w1 a) (\<lambda>w'. range_inChan w' ys))
       (\<lambda>w2. andThen (Close w2) (\<lambda>w3. wg_Wait E w3))"
    by (simp only: Do_def 1 4 andThen.simps)
  have "Do E w (xs @ a # ys) =
       Blocked (w\<lparr>fwdChan := Some (fc\<lparr>sent := sent fc @
                       filter (\<lambda>a. forwarded (settings w) (heap w a)) (xs @ [a])\<rparr>),
                  recordNum := recordNum w + 1,
                  heap := (heap w)(a := (heap w a)\<lparr>Num := recordNum w + 1\<rparr>),
                  trace := trace w @ [Log LInfo ''writer: started''] @
                           concat (map (events_of (settings w) (heap w)) xs) @
                           Log LDebug ''write: got a message'' #
                           (if forwarded (settings w) (heap w a) then [Send FwdChan a] else [])\<rparr>)"
    unfolding 5 3 by (simp add: logger_def)
  with 1 assms(2) show ?thesis by simp
qed

text \<open>
  C10 at a new Writer with \<open>x_sync\<close> set, fed B, C, D, A: it blocks at D.
\<close>

theorem C10_witness:
  "GetValue (GetXSync (settings (NewWriter settings_sync make_chan heap_ABCD))) \<and>
   storeChan (NewWriter settings_sync make_chan heap_ABCD) = None \<and>
   fwd_open (NewWriter settings_sync make_chan heap_ABCD) make_chan \<and>
   \<not> persisted (heap (NewWriter settings_sync make_chan heap_ABCD) 1) \<and>
   \<not> persisted (heap (NewWriter settings_sync make_chan heap_ABCD) 2) \<and>
   persisted (heap (NewWriter settings_sync make_chan heap_ABCD) 3) \<and>
   startStore env_ok (NewWriter settings_sync make_chan heap_ABCD) =
     Ok (NewWriter settings_sync make_chan heap_ABCD) \<and>
   is_Blocked (Do env_ok (NewWriter settings_sync make_chan heap_ABCD) ([1, 2] @ 3 # [0])) \<and>
   storeChan (state_of (Do env_ok (NewWriter settings_sync make_chan heap_ABCD) ([1, 2] @ 3 # [0]))) = None \<and>
   recordNum (state_of (Do env_ok (NewWriter settings_sync make_chan heap_ABCD) ([1, 2] @ 3 # [0]))) = 1 \<and>
   Num (heap (state_of (Do env_ok (NewWriter settings_sync make_chan heap_ABCD) ([1, 2] @ 3 # [0]))) 3) = 1"
proof -
  let ?w = "NewWriter settings_sync make_chan heap_ABCD"
  have a: "GetValue (GetXSync (settings ?w))" by (simp add: example_defs getter_defs)
  have b: "storeChan ?w = None" by (simp add: example_defs)
  have c: "fwd_open ?w make_chan" by (simp add: example_defs fwd_open_def)
  have d: "\<forall>x\<in>set [1, 2]. \<not> persisted (heap ?w x)"
    by (simp add: example_defs vocabulary_defs getter_defs)
  have e: "persisted (heap ?w 3)" by (simp add: example_defs vocabulary_defs getter_defs)
  from C10_sync_blocks [OF a b c d e, of env_ok "[0]"] show ?thesis
    using a b c d e by (simp add: NewWriter_def)
qed

end
